theory Spec2Isabelle
  imports Main
begin

section \<open>Provider selection and fallback of the demo server (src/server.js)\<close>

text \<open>
  The development embeds the decision logic of \<^verbatim>\<open>src/server.js\<close>: the configuration
  check \<^verbatim>\<open>isProviderConfigured\<close>, the probe \<^verbatim>\<open>testProviderAvailability\<close>, the
  fallback loop \<^verbatim>\<open>generateWithProvider\<close>, the usage counters and the handler of
  \<^verbatim>\<open>POST /api/generate\<close>.

  JavaScript strings are modelled as \<open>string\<close>; every string the code compares or
  builds here is ASCII. \<^verbatim>\<open>process.env\<close> is a partial map from names to strings.
  Objects used as tables (\<^verbatim>\<open>DEFAULT_MODELS\<close>, \<^verbatim>\<open>PROVIDER_ENV_VARS\<close>) are association
  lists read with \<open>map_of\<close>: the lookup of an own property. The callers in the source
  pass the names of \<^verbatim>\<open>ALL_PROVIDERS\<close> to these lookups; names inherited from
  \<^verbatim>\<open>Object.prototype\<close> are outside the model.
\<close>

subsection \<open>Configuration and constants\<close>

definition ALL_PROVIDERS :: "string list" where
  "ALL_PROVIDERS =
     [''google-ai'', ''anthropic'', ''openai'', ''mistral'', ''vertex'',
      ''azure'', ''huggingface'', ''bedrock'', ''ollama'']"

definition DEFAULT_MODELS :: "(string \<times> string) list" where
  "DEFAULT_MODELS =
     [(''openai'', ''gpt-4o''),
      (''bedrock'',
       ''arn:aws:bedrock:us-east-2:225681119357:inference-profile/us.anthropic.claude-3-7-sonnet-20250219-v1:0''),
      (''vertex'', ''gemini-2.5-pro''),
      (''google-ai'', ''gemini-2.5-pro''),
      (''anthropic'', ''claude-3-5-sonnet-20241022''),
      (''azure'', ''gpt-4o''),
      (''huggingface'', ''microsoft/DialoGPT-medium''),
      (''ollama'', ''llama3.2:latest''),
      (''mistral'', ''mistral-small'')]"

definition PROVIDER_ENV_VARS :: "(string \<times> string list) list" where
  "PROVIDER_ENV_VARS =
     [(''openai'', [''OPENAI_API_KEY'']),
      (''bedrock'', [''AWS_ACCESS_KEY_ID'', ''AWS_SECRET_ACCESS_KEY'']),
      (''vertex'',
       [''GOOGLE_VERTEX_PROJECT'', ''GOOGLE_APPLICATION_CREDENTIALS'',
        ''GOOGLE_AUTH_CLIENT_EMAIL'']),
      (''google-ai'', [''GOOGLE_AI_API_KEY'']),
      (''anthropic'', [''ANTHROPIC_API_KEY'']),
      (''azure'', [''AZURE_OPENAI_API_KEY'', ''AZURE_OPENAI_ENDPOINT'']),
      (''huggingface'', [''HUGGINGFACE_API_KEY'']),
      (''ollama'', []),
      (''mistral'', [''MISTRAL_API_KEY''])]"

type_synonym env = "string \<Rightarrow> string option"

text \<open>
  \<^verbatim>\<open>!!process.env[varName]\<close>: an environment variable is truthy when it is set to a
  non-empty string.
\<close>

definition truthy :: "string option \<Rightarrow> bool" where
  "truthy v = (case v of None \<Rightarrow> False | Some s \<Rightarrow> s \<noteq> [])"

subsection \<open>String helpers of the JavaScript runtime\<close>

text \<open>\<^verbatim>\<open>String.prototype.toUpperCase\<close> on ASCII letters.\<close>

definition toUpperCase :: "string \<Rightarrow> string" where
  "toUpperCase s =
     map (\<lambda>c. if 97 \<le> (of_char c :: nat) \<and> (of_char c :: nat) \<le> 122
              then char_of ((of_char c :: nat) - 32) else c) s"

text \<open>\<^verbatim>\<open>s.replace(a, b)\<close> with one-character strings: only the first occurrence.\<close>

fun replace_first :: "char \<Rightarrow> char \<Rightarrow> string \<Rightarrow> string" where
  "replace_first a b [] = []"
| "replace_first a b (c # cs) = (if c = a then b # cs else c # replace_first a b cs)"

text \<open>\<^verbatim>\<open>String.prototype.includes\<close>: the pattern occurs as a contiguous substring.\<close>

fun startsWith :: "string \<Rightarrow> string \<Rightarrow> bool" where
  "startsWith s [] = True"
| "startsWith [] (p # ps) = False"
| "startsWith (c # cs) (p # ps) = (c = p \<and> startsWith cs ps)"

fun includes_str :: "string \<Rightarrow> string \<Rightarrow> bool" where
  "includes_str [] p = (p = [])"
| "includes_str (c # cs) p = (startsWith (c # cs) p \<or> includes_str cs p)"

text \<open>\<^verbatim>\<open>Array.prototype.join\<close>.\<close>

fun join :: "string \<Rightarrow> string list \<Rightarrow> string" where
  "join sep [] = []"
| "join sep [x] = x"
| "join sep (x # y # ys) = x @ sep @ join sep (y # ys)"

text \<open>The decimal rendering of a number in a template string.\<close>

fun digits :: "nat \<Rightarrow> string" where
  "digits n =
     (if n < 10 then [char_of (48 + n)]
      else digits (n div 10) @ [char_of (48 + n mod 10)])"

declare digits.simps [simp del]

subsection \<open>Model lookup and configuration check\<close>

definition getModelForProvider :: "env \<Rightarrow> string \<Rightarrow> string" where
  "getModelForProvider env provider =
     (let envVar = replace_first (CHR ''-'') (CHR ''_'') (toUpperCase provider) @ ''_MODEL'';
          fallback = (case map_of DEFAULT_MODELS provider of
                        Some m \<Rightarrow> m
                      | None \<Rightarrow> ''gpt-4o'')
      in case env envVar of
           Some m \<Rightarrow> if m \<noteq> [] then m else fallback
         | None \<Rightarrow> fallback)"

definition isProviderConfigured :: "env \<Rightarrow> string \<Rightarrow> bool" where
  "isProviderConfigured env provider =
     (if provider = ''ollama'' then True
      else
        let requiredVars = (case map_of PROVIDER_ENV_VARS provider of
                              Some vs \<Rightarrow> vs
                            | None \<Rightarrow> [])
        in if provider = ''vertex''
           then list_ex (\<lambda>varName. truthy (env varName)) requiredVars
           else list_all (\<lambda>varName. truthy (env varName)) requiredVars)"

subsection \<open>Candidate list of \<^verbatim>\<open>generateWithProvider\<close>\<close>

definition providersToTry :: "env \<Rightarrow> string \<Rightarrow> string list" where
  "providersToTry env providerName =
     (if providerName = ''auto''
      then filter (\<lambda>p. isProviderConfigured env p) ALL_PROVIDERS
      else if env ''ENABLE_FALLBACK'' \<noteq> Some ''false''
           then [providerName] @
                filter (\<lambda>p. p \<noteq> providerName \<and> isProviderConfigured env p) ALL_PROVIDERS
           else [providerName])"

subsection \<open>The provider library and the calls made to it\<close>

text \<open>
  The provider library (\<^verbatim>\<open>createAIProvider\<close> and the client's \<^verbatim>\<open>generate\<close>) is
  external. Within one request the prompt and the options are fixed, so the library is
  an oracle from the provider's name to what the two calls do: the instantiation
  throws, the generation throws, or the generation returns a payload (possibly
  \<^verbatim>\<open>null\<close>). Every call that leaves the process is recorded in a trace.

  A thrown value is any JavaScript value. \<open>JsError m s\<close> stands for a value whose
  \<^verbatim>\<open>message\<close> property reads as \<open>m\<close> (absent when \<open>None\<close>) and whose \<^verbatim>\<open>String(...)\<close>
  is \<open>s\<close>: an \<^verbatim>\<open>Error\<close>, a string, a number, a plain object. \<open>JsNull\<close> and
  \<open>JsUndefined\<close> are the two values that have no properties: reading \<^verbatim>\<open>.message\<close>
  on them throws a \<^verbatim>\<open>TypeError\<close>.
\<close>

datatype js_error = JsError "string option" string | JsNull | JsUndefined

text \<open>The message of the \<^verbatim>\<open>TypeError\<close> for reading property \<open>prop\<close> of \<open>v\<close>.\<close>

definition typeErrorReading :: "string \<Rightarrow> string \<Rightarrow> string" where
  "typeErrorReading v prop =
     ''Cannot read properties of '' @ v @ '' (reading '' @ [CHR 0x27] @ prop @ [CHR 0x27] @ '')''"

text \<open>
  \<^verbatim>\<open>error.message || String(error)\<close>, as the \<^verbatim>\<open>catch\<close> blocks evaluate it on the
  thrown value: \<open>Inr\<close> the string, or \<open>Inl\<close> the message of the \<^verbatim>\<open>TypeError\<close> that the
  evaluation itself throws.
\<close>

definition errorMsgOf :: "js_error \<Rightarrow> string + string" where
  "errorMsgOf e =
     (case e of
        JsError m s \<Rightarrow>
          (case m of
             Some msg \<Rightarrow> if msg \<noteq> [] then Inr msg else Inr s
           | None \<Rightarrow> Inr s)
      | JsNull \<Rightarrow> Inl (typeErrorReading ''null'' ''message'')
      | JsUndefined \<Rightarrow> Inl (typeErrorReading ''undefined'' ''message''))"

record usage_payload =
  usage_totalTokens :: "nat option"

record gen_payload =
  payload_text :: "string option"
  payload_model :: "string option"
  payload_usage :: "usage_payload option"

datatype provider_call =
    CreateThrows js_error
  | GenerateThrows js_error
  | GenerateReturns "gen_payload option"

type_synonym provider_library = "string \<Rightarrow> provider_call"

datatype call = FetchOllamaTags | CreateAIProvider string | Generate string

datatype fetch_outcome = FetchResponds bool | FetchThrows js_error

subsection \<open>Usage counters\<close>

text \<open>
  The counters are JavaScript numbers: IEEE 754 doubles. They start at 0 and only
  ever grow by additions of non-negative integers, so a counter is a non-negative
  integer or \<^verbatim>\<open>Infinity\<close>. An addition is exact up to \<open>2 ^ 53\<close>; above, the exact
  sum is rounded to the nearest double, ties to the even significand, and from
  \<open>2 ^ 1024 - 2 ^ 970\<close> on the result is \<^verbatim>\<open>Infinity\<close>. A token total reported by
  the library is taken as a non-negative integer. The \<^verbatim>\<open>providers\<close> object is created
  empty and never written.
\<close>

datatype js_number = Finite nat | Infinity

fun bit_length :: "nat \<Rightarrow> nat" where
  "bit_length n = (if n = 0 then 0 else Suc (bit_length (n div 2)))"

declare bit_length.simps [simp del]

definition round_double :: "nat \<Rightarrow> js_number" where
  "round_double n =
     (if n \<le> 2 ^ 53 then Finite n
      else
        let e = bit_length n - 53;
            q = n div 2 ^ e;
            r = n mod 2 ^ e;
            h = 2 ^ (e - 1);
            m = (if r < h \<or> (r = h \<and> even q) then q else q + 1)
        in if m * 2 ^ e \<ge> 2 ^ 1024 then Infinity else Finite (m * 2 ^ e))"

definition js_add :: "js_number \<Rightarrow> js_number \<Rightarrow> js_number" where
  "js_add a b =
     (case a of
        Infinity \<Rightarrow> Infinity
      | Finite x \<Rightarrow> (case b of Infinity \<Rightarrow> Infinity | Finite y \<Rightarrow> round_double (x + y)))"

record usageStats =
  requests :: js_number
  providers :: "(string \<times> nat) list"
  errors :: js_number
  totalTokens :: js_number


definition updateUsageStats :: "usage_payload option \<Rightarrow> usageStats \<Rightarrow> usageStats" where
  "updateUsageStats u stats =
     (case u of
        None \<Rightarrow> stats
      | Some us \<Rightarrow>
          (case usage_totalTokens us of
             None \<Rightarrow> stats
           | Some n \<Rightarrow>
               if n \<noteq> 0
               then stats\<lparr>totalTokens := js_add (totalTokens stats) (Finite n)\<rparr>
               else stats))"

subsection \<open>The probe \<^verbatim>\<open>testProviderAvailability\<close>\<close>

record provider_status =
  available :: bool
  configured :: bool
  authenticated :: bool
  model :: string
  error :: "string option"

text \<open>
  \<^verbatim>\<open>testOllamaConnection\<close>: the \<^verbatim>\<open>catch\<close> block logs \<^verbatim>\<open>error.message\<close> before it
  returns \<^verbatim>\<open>false\<close>, so a rejection with \<^verbatim>\<open>null\<close> or \<^verbatim>\<open>undefined\<close> leaves the
  function with a \<^verbatim>\<open>TypeError\<close> (\<open>Inl\<close> its message).
\<close>

definition testOllamaConnection :: "fetch_outcome \<Rightarrow> (string + bool) \<times> call list" where
  "testOllamaConnection fetch =
     (case fetch of
        FetchResponds ok \<Rightarrow> (Inr ok, [FetchOllamaTags])
      | FetchThrows e \<Rightarrow>
          (case e of
             JsError m s \<Rightarrow> (Inr False, [FetchOllamaTags])
           | JsNull \<Rightarrow> (Inl (typeErrorReading ''null'' ''message''), [FetchOllamaTags])
           | JsUndefined \<Rightarrow>
               (Inl (typeErrorReading ''undefined'' ''message''), [FetchOllamaTags])))"

text \<open>
  The \<^verbatim>\<open>if\<close>/\<^verbatim>\<open>else if\<close> chain of the probe's \<^verbatim>\<open>catch\<close> block, in the order of the
  source. Each branch is named by the kind of failure it reports.
\<close>

datatype error_kind = Authentication | NotFound | RateLimited | ConnectionFailure | Unknown

definition classify :: "string \<Rightarrow> error_kind" where
  "classify errorMsg =
     (if includes_str errorMsg ''401'' \<or>
         includes_str errorMsg ''Unauthorized'' \<or>
         includes_str errorMsg ''Invalid API'' \<or>
         includes_str errorMsg ''Authentication'' \<or>
         includes_str errorMsg ''API key'' \<or>
         includes_str errorMsg ''not authorized''
      then Authentication
      else if includes_str errorMsg ''404'' \<or> includes_str errorMsg ''not found''
      then NotFound
      else if includes_str errorMsg ''429'' \<or> includes_str errorMsg ''rate limit''
      then RateLimited
      else if includes_str errorMsg ''timeout'' \<or> includes_str errorMsg ''ECONNREFUSED''
      then ConnectionFailure
      else Unknown)"

definition probe_catch :: "provider_status \<Rightarrow> string \<Rightarrow> provider_status" where
  "probe_catch result errorMsg =
     (let result = result\<lparr>available := False, authenticated := False\<rparr>
      in case classify errorMsg of
           Authentication \<Rightarrow>
             result\<lparr>error := Some ''Invalid API key or authentication failed''\<rparr>
         | NotFound \<Rightarrow> result\<lparr>error := Some ''Model or endpoint not found''\<rparr>
         | RateLimited \<Rightarrow>
             result\<lparr>error := Some ''Rate limit exceeded'', authenticated := True\<rparr>
         | ConnectionFailure \<Rightarrow>
             result\<lparr>error := Some ''Connection failed - service may be down''\<rparr>
         | Unknown \<Rightarrow> result\<lparr>error := Some errorMsg\<rparr>)"

definition missingVarsText :: "string \<Rightarrow> string" where
  "missingVarsText providerName =
     (case map_of PROVIDER_ENV_VARS providerName of
        None \<Rightarrow> ''Unknown''
      | Some vs \<Rightarrow> if join '', '' vs = [] then ''Unknown'' else join '', '' vs)"

text \<open>
  The probe returns a status, or it is left by the \<^verbatim>\<open>TypeError\<close> that one of the
  two \<^verbatim>\<open>catch\<close> blocks throws on a \<^verbatim>\<open>null\<close> or \<^verbatim>\<open>undefined\<close> rejection.
\<close>

datatype probe_outcome = Status provider_status | ProbeThrows string

definition probe_caught :: "provider_status \<Rightarrow> js_error \<Rightarrow> probe_outcome" where
  "probe_caught result e =
     (case errorMsgOf e of
        Inl typeError \<Rightarrow> ProbeThrows typeError
      | Inr errorMsg \<Rightarrow> Status (probe_catch result errorMsg))"

definition testProviderAvailability ::
  "env \<Rightarrow> fetch_outcome \<Rightarrow> provider_library \<Rightarrow> string \<Rightarrow> probe_outcome \<times> call list"
where
  "testProviderAvailability env fetch lib providerName =
     (let result = \<lparr>available = False, configured = False, authenticated = False,
                     model = getModelForProvider env providerName, error = None\<rparr>
      in if providerName = ''ollama''
         then
           (case testOllamaConnection fetch of
              (Inl typeError, calls) \<Rightarrow> (ProbeThrows typeError, calls)
            | (Inr isRunning, calls) \<Rightarrow>
                (Status
                   (result\<lparr>configured := isRunning, available := isRunning,
                           authenticated := isRunning,
                           error := (if \<not> isRunning
                                     then Some ''Ollama is not running. Please start Ollama with: ollama serve''
                                     else None)\<rparr>),
                 calls))
         else
           (let hasEnvVars = isProviderConfigured env providerName;
                result = result\<lparr>configured := hasEnvVars\<rparr>
            in if \<not> hasEnvVars
               then (Status
                       (result\<lparr>error := Some (''Missing required environment variables: '' @
                                               missingVarsText providerName)\<rparr>),
                     [])
               else
                 (case lib providerName of
                    CreateThrows e \<Rightarrow>
                      (probe_caught result e, [CreateAIProvider providerName])
                  | GenerateThrows e \<Rightarrow>
                      (probe_caught result e,
                       [CreateAIProvider providerName, Generate providerName])
                  | GenerateReturns r \<Rightarrow>
                      (Status (result\<lparr>available := True, authenticated := True\<rparr>),
                       [CreateAIProvider providerName, Generate providerName]))))"

subsection \<open>The fallback loop \<^verbatim>\<open>generateWithProvider\<close>\<close>

text \<open>
  The result object of a successful call. \<^verbatim>\<open>responseTime\<close> is a difference of two
  clock readings and is left out.
\<close>

record generation =
  content :: string
  provider :: string
  result_model :: string
  usage :: "usage_payload option"
  attemptedProviders :: nat
  fallbackUsed :: bool

text \<open>
  One pass through the \<^verbatim>\<open>try\<close> block and the first statement of its \<^verbatim>\<open>catch\<close>:
  a payload with its non-empty text (\<open>Accepted\<close>); or the message computed from
  whatever was thrown, the payload check's own \<^verbatim>\<open>Error\<close> included (\<open>Caught\<close>); or
  the \<^verbatim>\<open>TypeError\<close> thrown by computing that message from a \<^verbatim>\<open>null\<close> or
  \<^verbatim>\<open>undefined\<close> rejection, which is thrown inside the \<^verbatim>\<open>catch\<close> block and so leaves
  the function (\<open>Escaped\<close>).
\<close>

datatype attempt_result = Accepted string gen_payload | Caught string | Escaped string

definition caught :: "js_error \<Rightarrow> attempt_result" where
  "caught e = (case errorMsgOf e of Inl typeError \<Rightarrow> Escaped typeError | Inr msg \<Rightarrow> Caught msg)"

definition attempt :: "provider_library \<Rightarrow> string \<Rightarrow> attempt_result \<times> call list" where
  "attempt lib currentProvider =
     (case lib currentProvider of
        CreateThrows e \<Rightarrow> (caught e, [CreateAIProvider currentProvider])
      | GenerateThrows e \<Rightarrow>
          (caught e, [CreateAIProvider currentProvider, Generate currentProvider])
      | GenerateReturns r \<Rightarrow>
          (case r of
             None \<Rightarrow>
               (Caught ''Provider returned null or invalid response'',
                [CreateAIProvider currentProvider, Generate currentProvider])
           | Some result \<Rightarrow>
               (case payload_text result of
                  None \<Rightarrow>
                    (Caught ''Provider returned null or invalid response'',
                     [CreateAIProvider currentProvider, Generate currentProvider])
                | Some t \<Rightarrow>
                    if t = []
                    then (Caught ''Provider returned null or invalid response'',
                          [CreateAIProvider currentProvider, Generate currentProvider])
                    else (Accepted t result,
                          [CreateAIProvider currentProvider, Generate currentProvider]))))"

text \<open>
  What the call does: it returns the result object, it throws an \<^verbatim>\<open>Error\<close> with a
  message, or it falls off the end of the function and returns \<^verbatim>\<open>undefined\<close>.
\<close>

datatype generate_outcome = Success generation | Throws string | ReturnsUndefined

text \<open>
  The \<^verbatim>\<open>for\<close> loop, from index \<open>i\<close>. It returns the outcome, the usage counters, the
  trace of library calls and the local array \<^verbatim>\<open>errors\<close> as it stands on exit (the
  source joins it into a line for \<^verbatim>\<open>console.error\<close> only).
\<close>

function generate_loop ::
  "env \<Rightarrow> provider_library \<Rightarrow> string list \<Rightarrow> nat \<Rightarrow> string list \<Rightarrow> usageStats \<Rightarrow> call list
   \<Rightarrow> generate_outcome \<times> usageStats \<times> call list \<times> string list"
where
  "generate_loop env lib candidates i errs stats trace =
     (if i < length candidates
      then
        (let currentProvider = candidates ! i
         in case attempt lib currentProvider of
              (Accepted t result, calls) \<Rightarrow>
                (Success
                   \<lparr>content = t,
                    provider = currentProvider,
                    result_model =
                      (case payload_model result of
                         Some m \<Rightarrow> if m \<noteq> [] then m
                                   else getModelForProvider env currentProvider
                       | None \<Rightarrow> getModelForProvider env currentProvider),
                    usage = payload_usage result,
                    attemptedProviders = i + 1,
                    fallbackUsed = (i > 0)\<rparr>,
                 updateUsageStats (payload_usage result) stats,
                 trace @ calls,
                 errs)
            | (Escaped typeError, calls) \<Rightarrow> (Throws typeError, stats, trace @ calls, errs)
            | (Caught errorMsg, calls) \<Rightarrow>
                if i = length candidates - 1
                then (Throws (''Failed after '' @ digits (length candidates) @
                              '' attempts. Last error: '' @ errorMsg),
                      stats,
                      trace @ calls,
                      errs @ [currentProvider @ '': '' @ errorMsg])
                else generate_loop env lib candidates (i + 1)
                       (errs @ [currentProvider @ '': '' @ errorMsg]) stats (trace @ calls))
      else (ReturnsUndefined, stats, trace, errs))"
  by pat_completeness auto
termination
  by (relation "measure (\<lambda>(env, lib, candidates, i, errs, stats, trace). length candidates - i)")
     auto

declare generate_loop.simps [simp del]

definition generateWithProvider ::
  "env \<Rightarrow> provider_library \<Rightarrow> string \<Rightarrow> usageStats
   \<Rightarrow> generate_outcome \<times> usageStats \<times> call list \<times> string list"
where
  "generateWithProvider env lib providerName stats =
     generate_loop env lib (providersToTry env providerName) 0 [] stats []"

subsection \<open>The handler of \<^verbatim>\<open>POST /api/generate\<close>\<close>




subsection \<open>Notions used to state the properties\<close>

text \<open>The pattern \<open>p\<close> occurs in \<open>s\<close> as a contiguous substring.\<close>

definition occurs_in :: "string \<Rightarrow> string \<Rightarrow> bool" where
  "occurs_in p s = (\<exists>pre post. s = pre @ p @ post)"

text \<open>\<^verbatim>\<open>String.prototype.toLowerCase\<close> on ASCII letters.\<close>

definition toLowerCase :: "string \<Rightarrow> string" where
  "toLowerCase s =
     map (\<lambda>c. if 65 \<le> (of_char c :: nat) \<and> (of_char c :: nat) \<le> 90
              then char_of ((of_char c :: nat) + 32) else c) s"

text \<open>
  The classification as the specification words it: the same priority order, with
  the message matched without regard to case. The connection-refused signal is
  taken to be the code's \<^verbatim>\<open>ECONNREFUSED\<close>.
\<close>

definition classify_case_insensitive :: "string \<Rightarrow> error_kind" where
  "classify_case_insensitive errorMsg =
     (let m = toLowerCase errorMsg
      in if includes_str m ''401'' \<or>
            includes_str m ''unauthorized'' \<or>
            includes_str m ''invalid api'' \<or>
            includes_str m ''authentication'' \<or>
            includes_str m ''api key'' \<or>
            includes_str m ''not authorized''
         then Authentication
         else if includes_str m ''404'' \<or> includes_str m ''not found''
         then NotFound
         else if includes_str m ''429'' \<or> includes_str m ''rate limit''
         then RateLimited
         else if includes_str m ''timeout'' \<or> includes_str m ''econnrefused''
         then ConnectionFailure
         else Unknown)"

text \<open>
  What a candidate's call does, read off the library alone. It \<open>succeeds\<close> when the
  generation returns a payload with a non-empty text. It \<open>rejects_nullish\<close> when
  the instantiation or the generation throws \<^verbatim>\<open>null\<close> or \<^verbatim>\<open>undefined\<close>. Otherwise
  it \<open>fails\<close>: it throws any other value, or returns \<^verbatim>\<open>null\<close> or a payload whose
  text is missing or empty; \<open>failure_msg\<close> is then the message of that failure.
\<close>

definition succeeds :: "provider_call \<Rightarrow> bool" where
  "succeeds c =
     (case c of
        GenerateReturns (Some r) \<Rightarrow>
          (case payload_text r of Some t \<Rightarrow> t \<noteq> [] | None \<Rightarrow> False)
      | _ \<Rightarrow> False)"

definition nullish :: "js_error \<Rightarrow> bool" where
  "nullish e = (case e of JsError m s \<Rightarrow> False | JsNull \<Rightarrow> True | JsUndefined \<Rightarrow> True)"

definition rejects_nullish :: "provider_call \<Rightarrow> bool" where
  "rejects_nullish c =
     (case c of
        CreateThrows e \<Rightarrow> nullish e
      | GenerateThrows e \<Rightarrow> nullish e
      | GenerateReturns r \<Rightarrow> False)"

definition fails :: "provider_call \<Rightarrow> bool" where
  "fails c = (\<not> succeeds c \<and> \<not> rejects_nullish c)"

definition thrown_msg :: "js_error \<Rightarrow> string" where
  "thrown_msg e =
     (case e of
        JsError m s \<Rightarrow> (case m of Some msg \<Rightarrow> if msg \<noteq> [] then msg else s | None \<Rightarrow> s)
      | JsNull \<Rightarrow> typeErrorReading ''null'' ''message''
      | JsUndefined \<Rightarrow> typeErrorReading ''undefined'' ''message'')"

definition failure_msg :: "provider_call \<Rightarrow> string" where
  "failure_msg c =
     (case c of
        CreateThrows e \<Rightarrow> thrown_msg e
      | GenerateThrows e \<Rightarrow> thrown_msg e
      | GenerateReturns r \<Rightarrow> ''Provider returned null or invalid response'')"

text \<open>The providers instantiated in a trace, and the providers asked to generate.\<close>

fun instantiated :: "call list \<Rightarrow> string list" where
  "instantiated [] = []"
| "instantiated (CreateAIProvider p # cs) = p # instantiated cs"
| "instantiated (c # cs) = instantiated cs"

fun generated :: "call list \<Rightarrow> string list" where
  "generated [] = []"
| "generated (Generate p # cs) = p # generated cs"
| "generated (c # cs) = generated cs"

text \<open>The calls one attempt makes, and the line it adds to the array \<^verbatim>\<open>errors\<close>.\<close>

definition calls_of :: "provider_library \<Rightarrow> string \<Rightarrow> call list" where
  "calls_of lib c = snd (attempt lib c)"

definition error_line :: "provider_library \<Rightarrow> string \<Rightarrow> string" where
  "error_line lib c = c @ '': '' @ failure_msg (lib c)"

section \<open>Properties\<close>

subsection \<open>Substrings\<close>

lemma startsWith_iff: "startsWith s p \<longleftrightarrow> (\<exists>ss. s = p @ ss)"
  by (induction s p rule: startsWith.induct) auto

lemma includes_str_iff: "includes_str s p \<longleftrightarrow> (\<exists>ps ss. s = ps @ p @ ss)"
proof (induction s)
  case Nil
  then show ?case by auto
next
  case (Cons c cs)
  show ?case
  proof
    assume "includes_str (c # cs) p"
    then consider "startsWith (c # cs) p" | "includes_str cs p" by auto
    then show "\<exists>ps ss. c # cs = ps @ p @ ss"
    proof cases
      case 1
      then obtain ss where "c # cs = p @ ss" by (auto simp: startsWith_iff)
      then have "c # cs = [] @ p @ ss" by simp
      then show ?thesis by blast
    next
      case 2
      then obtain ps ss where "cs = ps @ p @ ss" using Cons.IH by auto
      then have "c # cs = (c # ps) @ p @ ss" by simp
      then show ?thesis by blast
    qed
  next
    assume "\<exists>ps ss. c # cs = ps @ p @ ss"
    then obtain ps ss where e: "c # cs = ps @ p @ ss" by auto
    show "includes_str (c # cs) p"
    proof (cases ps)
      case Nil
      with e have "startsWith (c # cs) p" by (auto simp: startsWith_iff)
      then show ?thesis by simp
    next
      case (Cons a as)
      with e have "cs = as @ p @ ss" by simp
      then have "includes_str cs p" using Cons.IH by auto
      then show ?thesis by simp
    qed
  qed
qed

lemma includes_str_occurs_in: "includes_str s p = occurs_in p s"
  by (simp add: includes_str_iff occurs_in_def)

subsection \<open>Configuration check and candidate list\<close>

lemma ollama_in_ALL_PROVIDERS: "''ollama'' \<in> set ALL_PROVIDERS"
  by (simp add: ALL_PROVIDERS_def)

text \<open>
  C10. In every environment the configuration check of the local provider \<open>ollama\<close>
  is true, whatever the environment holds; so the candidate list of \<open>auto\<close> mode
  contains \<open>ollama\<close> and is never empty.
\<close>

theorem ollama_always_configured:
  "isProviderConfigured env ''ollama''
   \<and> isProviderConfigured env ''ollama'' = isProviderConfigured env' ''ollama''
   \<and> ''ollama'' \<in> set (providersToTry env ''auto'')
   \<and> providersToTry env ''auto'' \<noteq> []"
proof -
  have c: "\<And>e. isProviderConfigured e ''ollama''"
    by (simp add: isProviderConfigured_def)
  have m: "''ollama'' \<in> set (providersToTry env ''auto'')"
    using c ollama_in_ALL_PROVIDERS by (simp add: providersToTry_def)
  then have "providersToTry env ''auto'' \<noteq> []"
    by auto
  with c m show ?thesis
    by simp
qed

theorem ollama_always_configured_witness:
  "isProviderConfigured (\<lambda>_. None) ''ollama''
   \<and> providersToTry (\<lambda>_. None) ''auto'' = [''ollama'']"
  using ollama_always_configured [of "\<lambda>_. None" "\<lambda>_. None"]
  by (simp add: providersToTry_def isProviderConfigured_def ALL_PROVIDERS_def
        PROVIDER_ENV_VARS_def truthy_def)

lemma filter_excluding: "filter (\<lambda>q. q \<noteq> p \<and> P q) xs = filter P (removeAll p xs)"
  by (induction xs) auto

text \<open>
  C2. The candidate list is a function of the environment and the requested provider
  alone. In \<open>auto\<close> mode it is the fixed priority list filtered by the configuration
  check, order preserved. For an explicit provider it is that provider followed by the
  configured providers of the priority list other than it, in priority order, unless
  \<^verbatim>\<open>ENABLE_FALLBACK\<close> is \<open>false\<close>, when it is the requested provider alone.
\<close>

theorem candidate_list_construction:
  "providersToTry env ''auto'' =
     filter (isProviderConfigured env)
       [''google-ai'', ''anthropic'', ''openai'', ''mistral'', ''vertex'',
        ''azure'', ''huggingface'', ''bedrock'', ''ollama'']
   \<and> (p \<noteq> ''auto'' \<and> env ''ENABLE_FALLBACK'' \<noteq> Some ''false'' \<longrightarrow>
        providersToTry env p =
          p # filter (isProviderConfigured env)
                (removeAll p
                   [''google-ai'', ''anthropic'', ''openai'', ''mistral'', ''vertex'',
                    ''azure'', ''huggingface'', ''bedrock'', ''ollama'']))
   \<and> (p \<noteq> ''auto'' \<and> env ''ENABLE_FALLBACK'' = Some ''false'' \<longrightarrow>
        providersToTry env p = [p])"
proof -
  have a: "providersToTry env ''auto'' = filter (isProviderConfigured env) ALL_PROVIDERS"
    by (simp add: providersToTry_def)
  have b: "providersToTry env p =
             p # filter (isProviderConfigured env) (removeAll p ALL_PROVIDERS)"
    if "p \<noteq> ''auto''" "env ''ENABLE_FALLBACK'' \<noteq> Some ''false''"
    using that by (simp add: providersToTry_def filter_excluding)
  have c: "providersToTry env p = [p]"
    if "p \<noteq> ''auto''" "env ''ENABLE_FALLBACK'' = Some ''false''"
    using that by (simp add: providersToTry_def)
  from a b c show ?thesis
    unfolding ALL_PROVIDERS_def by blast
qed

theorem candidate_list_construction_witness:
  "providersToTry ((\<lambda>_. None)(''OPENAI_API_KEY'' \<mapsto> ''sk-1'')) ''auto'' = [''openai'', ''ollama'']
   \<and> providersToTry ((\<lambda>_. None)(''OPENAI_API_KEY'' \<mapsto> ''sk-1'')) ''anthropic''
       = [''anthropic'', ''openai'', ''ollama'']
   \<and> providersToTry ((\<lambda>_. None)(''OPENAI_API_KEY'' \<mapsto> ''sk-1'', ''ENABLE_FALLBACK'' \<mapsto> ''false''))
         ''anthropic'' = [''anthropic'']"
  using candidate_list_construction
          [of "(\<lambda>_. None)(''OPENAI_API_KEY'' \<mapsto> ''sk-1'')" "''anthropic''"]
        candidate_list_construction
          [of "(\<lambda>_. None)(''OPENAI_API_KEY'' \<mapsto> ''sk-1'', ''ENABLE_FALLBACK'' \<mapsto> ''false'')"
              "''anthropic''"]
  by (simp add: isProviderConfigured_def PROVIDER_ENV_VARS_def truthy_def)

subsection \<open>Error classification\<close>

text \<open>
  C4 (as stated). The claim makes the matching case-insensitive. The code calls
  \<^verbatim>\<open>includes\<close> on the raw message with patterns in a fixed case: the message
  \<open>unauthorized\<close> falls through every branch, while a case-insensitive match classifies
  it as an authentication failure.
\<close>

theorem classify_case_counterexample:
  "classify ''unauthorized'' = Unknown
   \<and> classify_case_insensitive ''unauthorized'' = Authentication"
  by (simp add: classify_def classify_case_insensitive_def toLowerCase_def)

text \<open>
  C4 (amended). The classification is case-sensitive substring matching against the
  raw message, in the fixed order Authentication (401, Unauthorized, Invalid API,
  Authentication, API key, not authorized), NotFound (404, not found), RateLimited
  (429, rate limit), ConnectionFailure (timeout, ECONNREFUSED), Unknown, the first
  match winning; a message containing both 429 and 401 is an Authentication failure.
\<close>

theorem classify_priority:
  "classify msg =
     (if \<exists>p \<in> set [''401'', ''Unauthorized'', ''Invalid API'', ''Authentication'',
                     ''API key'', ''not authorized'']. occurs_in p msg
      then Authentication
      else if \<exists>p \<in> set [''404'', ''not found'']. occurs_in p msg then NotFound
      else if \<exists>p \<in> set [''429'', ''rate limit'']. occurs_in p msg then RateLimited
      else if \<exists>p \<in> set [''timeout'', ''ECONNREFUSED'']. occurs_in p msg
      then ConnectionFailure
      else Unknown)
   \<and> (occurs_in ''429'' msg \<and> occurs_in ''401'' msg \<longrightarrow> classify msg = Authentication)"
  by (simp add: classify_def includes_str_occurs_in)

theorem classify_priority_witness:
  "occurs_in ''429'' ''429 Too Many Requests (previous status 401)''
   \<and> occurs_in ''401'' ''429 Too Many Requests (previous status 401)''
   \<and> classify ''429 Too Many Requests (previous status 401)'' = Authentication"
proof -
  have a: "occurs_in ''429'' ''429 Too Many Requests (previous status 401)''"
    unfolding includes_str_occurs_in [symmetric] by simp
  have b: "occurs_in ''401'' ''429 Too Many Requests (previous status 401)''"
    unfolding includes_str_occurs_in [symmetric] by simp
  from a b classify_priority [of "''429 Too Many Requests (previous status 401)''"]
  show ?thesis by blast
qed

subsection \<open>The probe\<close>

lemma required_vars_cases:
  assumes "map_of PROVIDER_ENV_VARS p = Some vars"
  shows "p \<in> set ALL_PROVIDERS \<and> (p = ''ollama'' \<or> join '', '' vars \<noteq> [])"
  using assms
  by (auto simp: PROVIDER_ENV_VARS_def ALL_PROVIDERS_def split: if_splits)

text \<open>
  C7. For a provider other than \<open>ollama\<close> whose required environment variables are not
  set (none of them for \<open>vertex\<close>, at least one missing for the others), the probe
  returns at once: \<open>configured\<close>, \<open>available\<close> and \<open>authenticated\<close> are false, the
  error names the required variables, and no call leaves the process.
\<close>

theorem probe_fast_fail:
  assumes "providerName \<noteq> ''ollama''"
      and "map_of PROVIDER_ENV_VARS providerName = Some vars"
      and "if providerName = ''vertex''
           then \<forall>v \<in> set vars. \<not> truthy (env v)
           else \<exists>v \<in> set vars. \<not> truthy (env v)"
  shows "testProviderAvailability env fetch lib providerName =
           (Status
              \<lparr>available = False, configured = False, authenticated = False,
               model = getModelForProvider env providerName,
               error = Some (''Missing required environment variables: '' @ join '', '' vars)\<rparr>,
            [])"
proof -
  have nc: "\<not> isProviderConfigured env providerName"
    using assms by (auto simp: isProviderConfigured_def list_ex_iff list_all_iff)
  have "join '', '' vars \<noteq> []"
    using required_vars_cases [OF assms(2)] assms(1) by simp
  then have "missingVarsText providerName = join '', '' vars"
    using assms(2) by (simp add: missingVarsText_def)
  with nc assms(1) show ?thesis
    by (simp add: testProviderAvailability_def)
qed

theorem probe_fast_fail_witness:
  "testProviderAvailability (\<lambda>_. None) (FetchResponds True)
     (\<lambda>_. GenerateReturns None) ''bedrock'' =
     (Status
        \<lparr>available = False, configured = False, authenticated = False,
         model = ''arn:aws:bedrock:us-east-2:225681119357:inference-profile/us.anthropic.claude-3-7-sonnet-20250219-v1:0'',
         error = Some ''Missing required environment variables: AWS_ACCESS_KEY_ID, AWS_SECRET_ACCESS_KEY''\<rparr>,
      [])"
proof -
  have v: "map_of PROVIDER_ENV_VARS ''bedrock'' = Some [''AWS_ACCESS_KEY_ID'', ''AWS_SECRET_ACCESS_KEY'']"
    by (simp add: PROVIDER_ENV_VARS_def)
  have m: "getModelForProvider (\<lambda>_. None) ''bedrock'' =
      ''arn:aws:bedrock:us-east-2:225681119357:inference-profile/us.anthropic.claude-3-7-sonnet-20250219-v1:0''"
    by (simp add: getModelForProvider_def DEFAULT_MODELS_def)
  have n: "''bedrock'' \<noteq> ''ollama''"
    by simp
  have h: "if ''bedrock'' = ''vertex''
           then \<forall>v \<in> set [''AWS_ACCESS_KEY_ID'', ''AWS_SECRET_ACCESS_KEY'']. \<not> truthy ((\<lambda>_. None) v)
           else \<exists>v \<in> set [''AWS_ACCESS_KEY_ID'', ''AWS_SECRET_ACCESS_KEY'']. \<not> truthy ((\<lambda>_. None) v)"
    by (auto simp: truthy_def)
  show ?thesis
    using probe_fast_fail [OF n v h, of "FetchResponds True" "\<lambda>_. GenerateReturns None"] m
    by simp
qed

lemma probe_catch_flags:
  "available (probe_catch result m) = False"
  "configured (probe_catch result m) = configured result"
  "authenticated (probe_catch result m) = (classify m = RateLimited)"
  by (simp_all add: probe_catch_def Let_def split: error_kind.splits)

lemma errorMsgOf_nullish: "(\<exists>t. errorMsgOf e = Inl t) = nullish e"
  by (simp add: errorMsgOf_def nullish_def split: js_error.splits option.splits)

text \<open>
  C8. Every status the probe produces satisfies \<open>available \<longrightarrow> configured\<close>. It
  satisfies \<open>authenticated \<longrightarrow> available\<close> too, except when the provider is configured
  and its call throws a message classified as rate-limited: exactly then
  \<open>authenticated\<close> is true while \<open>available\<close> is false. The probe produces a status
  in every case but one: a rejection with \<^verbatim>\<open>null\<close> or \<^verbatim>\<open>undefined\<close> (from the
  Ollama check, or from the call of a configured provider) leaves it with a
  \<^verbatim>\<open>TypeError\<close> and no status.
\<close>

theorem probe_status_chain:
  "case fst (testProviderAvailability env fetch lib p) of
     Status r \<Rightarrow>
       (available r \<longrightarrow> configured r)
       \<and> (if p \<noteq> ''ollama'' \<and> isProviderConfigured env p \<and>
              (\<exists>e m. (lib p = CreateThrows e \<or> lib p = GenerateThrows e) \<and>
                     errorMsgOf e = Inr m \<and> classify m = RateLimited)
           then authenticated r \<and> \<not> available r \<and> configured r
           else (authenticated r \<longrightarrow> available r))
   | ProbeThrows t \<Rightarrow>
       (p = ''ollama'' \<and> (\<exists>e. fetch = FetchThrows e \<and> nullish e))
       \<or> (p \<noteq> ''ollama'' \<and> isProviderConfigured env p \<and> rejects_nullish (lib p))"
proof (cases "p = ''ollama''")
  case True
  then show ?thesis
    by (auto simp: testProviderAvailability_def testOllamaConnection_def nullish_def
             split: fetch_outcome.splits js_error.splits)
next
  case False
  show ?thesis
  proof (cases "isProviderConfigured env p")
    case nc: False
    with False show ?thesis
      by (simp add: testProviderAvailability_def)
  next
    case c: True
    show ?thesis
    proof (cases "lib p")
      case (CreateThrows e)
      show ?thesis
      proof (cases "errorMsgOf e")
        case (Inl t)
        then have "nullish e" using errorMsgOf_nullish [of e] by auto
        with False c CreateThrows Inl show ?thesis
          by (simp add: testProviderAvailability_def probe_caught_def rejects_nullish_def)
      next
        case (Inr m)
        with False c CreateThrows show ?thesis
          by (simp add: testProviderAvailability_def probe_caught_def probe_catch_flags)
      qed
    next
      case (GenerateThrows e)
      show ?thesis
      proof (cases "errorMsgOf e")
        case (Inl t)
        then have "nullish e" using errorMsgOf_nullish [of e] by auto
        with False c GenerateThrows Inl show ?thesis
          by (simp add: testProviderAvailability_def probe_caught_def rejects_nullish_def)
      next
        case (Inr m)
        with False c GenerateThrows show ?thesis
          by (simp add: testProviderAvailability_def probe_caught_def probe_catch_flags)
      qed
    next
      case (GenerateReturns x)
      with False c show ?thesis
        by (simp add: testProviderAvailability_def)
    qed
  qed
qed

theorem probe_status_chain_witness:
  "fst (testProviderAvailability ((\<lambda>_. None)(''OPENAI_API_KEY'' \<mapsto> ''sk-1'')) (FetchResponds True)
          (\<lambda>_. GenerateThrows (JsError (Some ''429 Too Many Requests'') ''Error: 429 Too Many Requests''))
          ''openai'')
     = Status \<lparr>available = False, configured = True, authenticated = True,
               model = ''gpt-4o'', error = Some ''Rate limit exceeded''\<rparr>
   \<and> (\<exists>r. fst (testProviderAvailability ((\<lambda>_. None)(''OPENAI_API_KEY'' \<mapsto> ''sk-1''))
                 (FetchResponds True)
                 (\<lambda>_. GenerateThrows (JsError (Some ''500 Internal'') ''Error: 500 Internal''))
                 ''openai'') = Status r
          \<and> (available r \<longrightarrow> configured r) \<and> (authenticated r \<longrightarrow> available r))"
proof -
  let ?env = "(\<lambda>_. None)(''OPENAI_API_KEY'' \<mapsto> ''sk-1'')"
  let ?rl = "\<lambda>_::string. GenerateThrows (JsError (Some ''429 Too Many Requests'') ''Error: 429 Too Many Requests'')"
  let ?other = "\<lambda>_::string. GenerateThrows (JsError (Some ''500 Internal'') ''Error: 500 Internal'')"
  have a: "fst (testProviderAvailability ?env (FetchResponds True) ?rl ''openai'')
     = Status \<lparr>available = False, configured = True, authenticated = True,
               model = ''gpt-4o'', error = Some ''Rate limit exceeded''\<rparr>"
    by (simp add: testProviderAvailability_def isProviderConfigured_def PROVIDER_ENV_VARS_def
          truthy_def getModelForProvider_def DEFAULT_MODELS_def toUpperCase_def
          probe_caught_def probe_catch_def classify_def errorMsgOf_def)
  obtain r where r: "fst (testProviderAvailability ?env (FetchResponds True) ?other ''openai'')
                     = Status r"
    by (simp add: testProviderAvailability_def isProviderConfigured_def PROVIDER_ENV_VARS_def
          truthy_def probe_caught_def errorMsgOf_def)
  have k: "classify ''500 Internal'' = Unknown"
    by (simp add: classify_def)
  from probe_status_chain [where env = ?env and fetch = "FetchResponds True"
         and lib = ?other and p = "''openai''"] r k
  have "(available r \<longrightarrow> configured r) \<and> (authenticated r \<longrightarrow> available r)"
    by (auto simp: errorMsgOf_def split: if_splits)
  with a r show ?thesis by blast
qed

subsection \<open>The fallback loop\<close>

lemma call_trichotomy:
  "(succeeds c \<and> \<not> fails c \<and> \<not> rejects_nullish c)
   \<or> (fails c \<and> \<not> succeeds c \<and> \<not> rejects_nullish c)
   \<or> (rejects_nullish c \<and> \<not> succeeds c \<and> \<not> fails c)"
  by (auto simp: fails_def succeeds_def rejects_nullish_def split: provider_call.splits)

lemma succeeds_payload:
  assumes "succeeds (lib c)"
  obtains r t where "lib c = GenerateReturns (Some r)" "payload_text r = Some t" "t \<noteq> []"
  using assms by (auto simp: succeeds_def split: provider_call.splits option.splits)

lemma caught_readable: "\<not> nullish e \<Longrightarrow> caught e = Caught (thrown_msg e)"
  by (auto simp: caught_def errorMsgOf_def thrown_msg_def nullish_def
           split: js_error.splits option.splits)

lemma caught_nullish: "nullish e \<Longrightarrow> caught e = Escaped (thrown_msg e)"
  by (auto simp: caught_def errorMsgOf_def thrown_msg_def nullish_def
           split: js_error.splits option.splits)

lemma attempt_succeeds:
  assumes "lib c = GenerateReturns (Some r)" "payload_text r = Some t" "t \<noteq> []"
  shows "attempt lib c = (Accepted t r, calls_of lib c)"
  using assms by (simp add: attempt_def calls_of_def)

lemma attempt_fails:
  assumes "fails (lib c)"
  shows "attempt lib c = (Caught (failure_msg (lib c)), calls_of lib c)"
  using assms
  by (auto simp: attempt_def calls_of_def fails_def succeeds_def rejects_nullish_def
                 failure_msg_def caught_readable
           split: provider_call.splits option.splits)

lemma attempt_rejects_nullish:
  assumes "rejects_nullish (lib c)"
  shows "attempt lib c = (Escaped (failure_msg (lib c)), calls_of lib c)"
  using assms
  by (auto simp: attempt_def calls_of_def rejects_nullish_def failure_msg_def caught_nullish
           split: provider_call.splits)

lemma instantiated_calls_of: "instantiated (calls_of lib c) = [c]"
  by (auto simp: calls_of_def attempt_def split: provider_call.splits option.splits)

lemma generated_calls_of: "set (generated (calls_of lib c)) \<subseteq> {c}"
  by (auto simp: calls_of_def attempt_def split: provider_call.splits option.splits)

lemma instantiated_append: "instantiated (xs @ ys) = instantiated xs @ instantiated ys"
  by (induction xs rule: instantiated.induct) auto

lemma generated_append: "generated (xs @ ys) = generated xs @ generated ys"
  by (induction xs rule: generated.induct) auto

lemma instantiated_attempts: "instantiated (concat (map (calls_of lib) cs)) = cs"
  by (induction cs) (auto simp: instantiated_append instantiated_calls_of)

lemma generated_attempts: "set (generated (concat (map (calls_of lib) cs))) \<subseteq> set cs"
proof (induction cs)
  case Nil
  then show ?case by simp
next
  case (Cons c cs)
  then show ?case
    using generated_calls_of [of lib c] by (auto simp: generated_append)
qed

lemma loop_success:
  assumes "i < length cs" "attempt lib (cs ! i) = (Accepted t r, calls)"
  shows "generate_loop env lib cs i errs stats trace =
           (Success
              \<lparr>content = t, provider = cs ! i,
               result_model =
                 (case payload_model r of
                    Some m \<Rightarrow> if m \<noteq> [] then m else getModelForProvider env (cs ! i)
                  | None \<Rightarrow> getModelForProvider env (cs ! i)),
               usage = payload_usage r,
               attemptedProviders = i + 1,
               fallbackUsed = (i > 0)\<rparr>,
            updateUsageStats (payload_usage r) stats, trace @ calls, errs)"
  using assms by (subst generate_loop.simps) (simp add: Let_def)

lemma loop_step_fail:
  assumes "i < length cs" "fails (lib (cs ! i))" "i \<noteq> length cs - 1"
  shows "generate_loop env lib cs i errs stats trace =
           generate_loop env lib cs (i + 1)
             (errs @ [error_line lib (cs ! i)]) stats (trace @ calls_of lib (cs ! i))"
  using assms(1,3) attempt_fails [of lib "cs ! i"] assms(2)
  by (subst generate_loop.simps) (simp add: Let_def error_line_def)

lemma loop_last_fail:
  assumes "i < length cs" "fails (lib (cs ! i))" "i = length cs - 1"
  shows "generate_loop env lib cs i errs stats trace =
           (Throws (''Failed after '' @ digits (length cs) @ '' attempts. Last error: '' @
                    failure_msg (lib (cs ! i))),
            stats,
            trace @ calls_of lib (cs ! i),
            errs @ [error_line lib (cs ! i)])"
  using assms(1,3) attempt_fails [of lib "cs ! i"] assms(2)
  by (subst generate_loop.simps) (simp add: Let_def error_line_def)

lemma loop_escape:
  assumes "i < length cs" "rejects_nullish (lib (cs ! i))"
  shows "generate_loop env lib cs i errs stats trace =
           (Throws (failure_msg (lib (cs ! i))), stats, trace @ calls_of lib (cs ! i), errs)"
  using assms(1) attempt_rejects_nullish [of lib "cs ! i"] assms(2)
  by (subst generate_loop.simps) (simp add: Let_def)

lemma loop_empty:
  "generate_loop env lib [] i errs stats trace = (ReturnsUndefined, stats, trace, errs)"
  by (subst generate_loop.simps) simp

lemma loop_skip_failures:
  assumes "k < length cs" "\<forall>j<k. fails (lib (cs ! j))"
  shows "generate_loop env lib cs 0 [] stats [] =
           generate_loop env lib cs k
             (map (error_line lib) (take k cs)) stats
             (concat (map (calls_of lib) (take k cs)))"
  using assms
proof (induction k)
  case 0
  then show ?case by simp
next
  case (Suc k)
  then have k: "k < length cs" and f: "fails (lib (cs ! k))"
    and nl: "k \<noteq> length cs - 1"
    by auto
  have "generate_loop env lib cs 0 [] stats [] =
          generate_loop env lib cs k
            (map (error_line lib) (take k cs)) stats
            (concat (map (calls_of lib) (take k cs)))"
    using Suc by simp
  also have "\<dots> = generate_loop env lib cs (k + 1)
            (map (error_line lib) (take k cs) @ [error_line lib (cs ! k)]) stats
            (concat (map (calls_of lib) (take k cs)) @ calls_of lib (cs ! k))"
    using k f nl by (intro loop_step_fail) auto
  finally show ?case
    using k by (simp add: take_Suc_conv_app_nth)
qed

lemma loop_first_success:
  assumes "k < length cs" "\<forall>j<k. fails (lib (cs ! j))"
      and "lib (cs ! k) = GenerateReturns (Some r)" "payload_text r = Some t" "t \<noteq> []"
  shows "generate_loop env lib cs 0 [] stats [] =
           (Success
              \<lparr>content = t, provider = cs ! k,
               result_model =
                 (case payload_model r of
                    Some m \<Rightarrow> if m \<noteq> [] then m else getModelForProvider env (cs ! k)
                  | None \<Rightarrow> getModelForProvider env (cs ! k)),
               usage = payload_usage r,
               attemptedProviders = k + 1,
               fallbackUsed = (k > 0)\<rparr>,
            updateUsageStats (payload_usage r) stats,
            concat (map (calls_of lib) (take (k + 1) cs)),
            map (error_line lib) (take k cs))"
proof -
  have a: "attempt lib (cs ! k) = (Accepted t r, calls_of lib (cs ! k))"
    using attempt_succeeds [of lib "cs ! k" r t] assms(3-5) by simp
  show ?thesis
    using assms(1)
    by (simp add: loop_skip_failures [of k cs lib env stats, OF assms(1,2)]
          loop_success [of k cs lib t r "calls_of lib (cs ! k)", OF assms(1) a]
          take_Suc_conv_app_nth)
qed

lemma loop_first_escape:
  assumes "k < length cs" "\<forall>j<k. fails (lib (cs ! j))" "rejects_nullish (lib (cs ! k))"
  shows "generate_loop env lib cs 0 [] stats [] =
           (Throws (failure_msg (lib (cs ! k))),
            stats,
            concat (map (calls_of lib) (take (k + 1) cs)),
            map (error_line lib) (take k cs))"
proof -
  have "generate_loop env lib cs 0 [] stats [] =
          generate_loop env lib cs k
            (map (error_line lib) (take k cs)) stats
            (concat (map (calls_of lib) (take k cs)))"
    using assms(1,2) by (intro loop_skip_failures) auto
  also have "\<dots> = (Throws (failure_msg (lib (cs ! k))), stats,
                    concat (map (calls_of lib) (take k cs)) @ calls_of lib (cs ! k),
                    map (error_line lib) (take k cs))"
    using assms(1,3) by (intro loop_escape) auto
  finally show ?thesis
    using assms(1) by (simp add: take_Suc_conv_app_nth)
qed

lemma loop_all_fail:
  assumes "cs \<noteq> []" "\<forall>c \<in> set cs. fails (lib c)"
  shows "generate_loop env lib cs 0 [] stats [] =
           (Throws (''Failed after '' @ digits (length cs) @ '' attempts. Last error: '' @
                    failure_msg (lib (last cs))),
            stats,
            concat (map (calls_of lib) cs),
            map (error_line lib) cs)"
proof -
  let ?k = "length cs - 1"
  have k: "?k < length cs" using assms(1) by simp
  have f: "\<forall>j<?k. fails (lib (cs ! j))" using assms(2) by simp
  have fk: "fails (lib (cs ! ?k))" using assms(2) k by simp
  have l: "cs ! ?k = last cs" using assms(1) by (simp add: last_conv_nth)
  have t: "take ?k cs @ [cs ! ?k] = cs"
    using assms(1) by (simp add: take_Suc_conv_app_nth [symmetric])
  have m: "map g (take ?k cs) @ [g (cs ! ?k)] = map g cs" for g :: "string \<Rightarrow> string"
    using arg_cong [OF t, of "map g"] by simp
  have c: "concat (map h (take ?k cs)) @ h (cs ! ?k) = concat (map h cs)"
    for h :: "string \<Rightarrow> call list"
    using arg_cong [OF t, of "\<lambda>xs. concat (map h xs)"] by simp
  have "generate_loop env lib cs 0 [] stats [] =
          generate_loop env lib cs ?k
            (map (error_line lib) (take ?k cs)) stats
            (concat (map (calls_of lib) (take ?k cs)))"
    using k f by (intro loop_skip_failures) auto
  also have "\<dots> =
      (Throws (''Failed after '' @ digits (length cs) @ '' attempts. Last error: '' @
               failure_msg (lib (cs ! ?k))),
       stats,
       concat (map (calls_of lib) (take ?k cs)) @ calls_of lib (cs ! ?k),
       map (error_line lib) (take ?k cs) @ [error_line lib (cs ! ?k)])"
    using k fk by (intro loop_last_fail) auto
  finally show ?thesis
    using m [of "error_line lib"] c [of "calls_of lib"] l
    by simp
qed

text \<open>
  Every run of the loop from index 0 is one of three: the list is empty; every
  candidate fails; or there is a first candidate that does not fail, which succeeds
  or rejects with \<^verbatim>\<open>null\<close> or \<^verbatim>\<open>undefined\<close>.
\<close>

lemma loop_cases:
  obtains (Empty) "cs = []"
  | (Exhausted) "cs \<noteq> []" "\<forall>c \<in> set cs. fails (lib c)"
  | (Decided) d where "d < length cs" "\<forall>j<d. fails (lib (cs ! j))"
      "succeeds (lib (cs ! d)) \<or> rejects_nullish (lib (cs ! d))"
proof (cases "\<exists>d. d < length cs \<and> \<not> fails (lib (cs ! d))")
  case True
  then obtain d where d: "d < length cs \<and> \<not> fails (lib (cs ! d))"
    and least: "\<forall>j<d. \<not> (j < length cs \<and> \<not> fails (lib (cs ! j)))"
    using exists_least_iff [of "\<lambda>d. d < length cs \<and> \<not> fails (lib (cs ! d))"] by auto
  have "\<forall>j<d. fails (lib (cs ! j))"
    using d least by auto
  moreover have "succeeds (lib (cs ! d)) \<or> rejects_nullish (lib (cs ! d))"
    using d by (auto simp: fails_def)
  ultimately show ?thesis
    using d Decided by blast
next
  case False
  then have "\<forall>c \<in> set cs. fails (lib c)"
    by (auto simp: in_set_conv_nth)
  then show ?thesis
    using Empty Exhausted by (cases "cs = []") auto
qed


lemma loop_attempt_cong:
  assumes "\<And>c. attempt lib c = attempt lib' c"
  shows "generate_loop env lib cs i errs stats trace =
         generate_loop env lib' cs i errs stats trace"
proof (induction "length cs - i" arbitrary: i errs trace)
  case 0
  then have "\<not> i < length cs" by simp
  then show ?case
    by (simp add: generate_loop.simps [of env lib cs i] generate_loop.simps [of env lib' cs i])
next
  case (Suc n)
  then have "n = length cs - (i + 1)" by simp
  then have ih: "generate_loop env lib cs (i + 1) e stats t =
                 generate_loop env lib' cs (i + 1) e stats t" for e t
    by (rule Suc.hyps(1))
  show ?case
    using ih
    by (simp add: generate_loop.simps [of env lib cs i] generate_loop.simps [of env lib' cs i]
          assms Let_def split: prod.splits attempt_result.splits)
qed

text \<open>
  C3. For every candidate list the loop of \<^verbatim>\<open>generateWithProvider\<close> is run on, with
  candidate \<open>K\<close> (counted from 1) the first whose call returns a non-empty text: every
  result the call returns is that candidate's, with \<open>attemptedProviders\<close> equal to
  \<open>K\<close> and \<open>fallbackUsed\<close> true exactly when \<open>K > 1\<close>; the providers instantiated are
  the first \<open>K\<close> candidates at most, in order, so no candidate after \<open>K\<close> is
  instantiated or asked to generate; and the call does return a result when every
  earlier candidate fails with a message (the one exception being an earlier
  candidate that rejects with \<^verbatim>\<open>null\<close> or \<^verbatim>\<open>undefined\<close>, which ends the call before
  candidate \<open>K\<close> is reached).
\<close>

theorem first_success_wins:
  assumes "1 \<le> K" "K \<le> length candidates"
      and "\<forall>j<K - 1. \<not> succeeds (lib (candidates ! j))"
      and "succeeds (lib (candidates ! (K - 1)))"
      and "generate_loop env lib candidates 0 [] stats [] = (out, stats', trace, errs)"
  shows "((\<forall>j<K - 1. fails (lib (candidates ! j))) \<longrightarrow> (\<exists>g. out = Success g))
       \<and> (\<forall>g. out = Success g \<longrightarrow>
              provider g = candidates ! (K - 1)
              \<and> attemptedProviders g = K
              \<and> fallbackUsed g = (K > 1)
              \<and> instantiated trace = take K candidates)
       \<and> (\<exists>n\<le>K. instantiated trace = take n candidates)
       \<and> set (generated trace) \<subseteq> set (take K candidates)"
proof (cases rule: loop_cases [where cs = candidates and lib = lib])
  case Empty
  with assms(1,2) show ?thesis by simp
next
  case Exhausted
  have "K - 1 < length candidates" using assms(1,2) by simp
  then have "fails (lib (candidates ! (K - 1)))" using Exhausted(2) by simp
  with assms(4) show ?thesis
    using call_trichotomy [of "lib (candidates ! (K - 1))"] by simp
next
  case (Decided d)
  have nf: "\<not> fails (lib (candidates ! (K - 1)))"
    using assms(4) call_trichotomy [of "lib (candidates ! (K - 1))"] by auto
  have dK: "d \<le> K - 1"
  proof (rule ccontr)
    assume "\<not> d \<le> K - 1"
    then have "K - 1 < d" by simp
    with Decided(2) nf show False by simp
  qed
  show ?thesis
  proof (cases "succeeds (lib (candidates ! d))")
    case True
    have d: "d = K - 1"
      using True dK assms(3) by (cases "d < K - 1") auto
    then have K: "d + 1 = K" using assms(1) by simp
    obtain r t where p: "lib (candidates ! d) = GenerateReturns (Some r)"
        "payload_text r = Some t" "t \<noteq> []"
      using True by (rule succeeds_payload)
    have e: "generate_loop env lib candidates 0 [] stats [] =
           (Success
              \<lparr>content = t, provider = candidates ! d,
               result_model =
                 (case payload_model r of
                    Some m \<Rightarrow> if m \<noteq> [] then m
                              else getModelForProvider env (candidates ! d)
                  | None \<Rightarrow> getModelForProvider env (candidates ! d)),
               usage = payload_usage r,
               attemptedProviders = d + 1,
               fallbackUsed = (d > 0)\<rparr>,
            updateUsageStats (payload_usage r) stats,
            concat (map (calls_of lib) (take (d + 1) candidates)),
            map (error_line lib) (take d candidates))"
      using Decided(1,2) p by (intro loop_first_success) auto
    have tr: "trace = concat (map (calls_of lib) (take K candidates))"
      using e assms(5) K by simp
    have i: "instantiated trace = take K candidates"
      unfolding tr by (rule instantiated_attempts)
    have g: "set (generated trace) \<subseteq> set (take K candidates)"
      unfolding tr by (rule generated_attempts)
    have o: "out = Success
              \<lparr>content = t, provider = candidates ! d,
               result_model =
                 (case payload_model r of
                    Some m \<Rightarrow> if m \<noteq> [] then m
                              else getModelForProvider env (candidates ! d)
                  | None \<Rightarrow> getModelForProvider env (candidates ! d)),
               usage = payload_usage r,
               attemptedProviders = d + 1,
               fallbackUsed = (d > 0)\<rparr>"
      using e assms(5) by simp
    have f: "(0 < d) = (1 < K)" using K by auto
    show ?thesis
      using o i g d K f by auto
  next
    case False
    with Decided(3) have n: "rejects_nullish (lib (candidates ! d))" by simp
    have "d \<noteq> K - 1"
      using n assms(4) call_trichotomy [of "lib (candidates ! d)"] by auto
    with dK have dl: "d < K - 1" by simp
    have e: "generate_loop env lib candidates 0 [] stats [] =
           (Throws (failure_msg (lib (candidates ! d))),
            stats,
            concat (map (calls_of lib) (take (d + 1) candidates)),
            map (error_line lib) (take d candidates))"
      using Decided(1,2) n by (intro loop_first_escape) auto
    have tr: "trace = concat (map (calls_of lib) (take (d + 1) candidates))"
      and o: "out = Throws (failure_msg (lib (candidates ! d)))"
      using e assms(5) by simp_all
    have i: "instantiated trace = take (d + 1) candidates"
      unfolding tr by (rule instantiated_attempts)
    have "set (generated trace) \<subseteq> set (take (d + 1) candidates)"
      unfolding tr by (rule generated_attempts)
    moreover have "set (take (d + 1) candidates) \<subseteq> set (take K candidates)"
      using dl by (intro set_take_subset_set_take) simp
    ultimately have g: "set (generated trace) \<subseteq> set (take K candidates)"
      by blast
    have nfd: "\<not> fails (lib (candidates ! d))"
      using n call_trichotomy [of "lib (candidates ! d)"] by auto
    have c1: "\<not> (\<forall>j<K - 1. fails (lib (candidates ! j)))"
      using dl nfd by auto
    have c3: "\<exists>n\<le>K. instantiated trace = take n candidates"
      using i dl by (intro exI [of _ "d + 1"]) simp
    show ?thesis
      using o c1 c3 g by simp
  qed
qed

theorem first_success_wins_witness:
  "\<exists>g stats' trace errs.
     generateWithProvider ((\<lambda>_. None)(''OPENAI_API_KEY'' \<mapsto> ''sk-1''))
       ((\<lambda>_. CreateThrows (JsError (Some ''connect ECONNREFUSED'') ''Error''))
          (''openai'' := GenerateReturns
             (Some \<lparr>payload_text = Some ''hello'', payload_model = None, payload_usage = None\<rparr>)))
       ''anthropic''
       \<lparr>requests = Finite 0, providers = [], errors = Finite 0, totalTokens = Finite 0\<rparr>
       = (Success g, stats', trace, errs)
     \<and> provider g = ''openai'' \<and> attemptedProviders g = 2 \<and> fallbackUsed g
     \<and> instantiated trace = [''anthropic'', ''openai'']"
proof -
  let ?env = "(\<lambda>_. None)(''OPENAI_API_KEY'' \<mapsto> ''sk-1'')"
  let ?lib = "(\<lambda>_. CreateThrows (JsError (Some ''connect ECONNREFUSED'') ''Error''))
          (''openai'' := GenerateReturns
             (Some \<lparr>payload_text = Some ''hello'', payload_model = None, payload_usage = None\<rparr>))"
  let ?cs = "[''anthropic'', ''openai'', ''ollama'']"
  let ?stats = "\<lparr>requests = Finite 0, providers = [], errors = Finite 0, totalTokens = Finite 0\<rparr>"
  have c: "providersToTry ?env ''anthropic'' = ?cs"
    by (simp add: providersToTry_def isProviderConfigured_def ALL_PROVIDERS_def
          PROVIDER_ENV_VARS_def truthy_def)
  have h1: "(1::nat) \<le> 2" and h2: "2 \<le> length ?cs"
    by simp_all
  have h3: "\<forall>j<(2::nat) - 1. \<not> succeeds (?lib (?cs ! j))"
    by (simp add: succeeds_def)
  have h4: "succeeds (?lib (?cs ! (2 - 1)))"
    by (simp add: succeeds_def)
  have f: "\<forall>j<(2::nat) - 1. fails (?lib (?cs ! j))"
    by (simp add: fails_def succeeds_def rejects_nullish_def nullish_def)
  obtain out stats' trace errs
    where run: "generate_loop ?env ?lib ?cs 0 [] ?stats [] = (out, stats', trace, errs)"
    by (cases "generate_loop ?env ?lib ?cs 0 [] ?stats []") auto
  note t = first_success_wins [where K = 2 and candidates = ?cs and lib = ?lib and env = ?env
         and stats = ?stats, OF h1 h2 h3 h4 run]
  from t f obtain g where g: "out = Success g"
    by blast
  with t have "provider g = ?cs ! (2 - 1) \<and> attemptedProviders g = 2
               \<and> fallbackUsed g = ((2::nat) > 1) \<and> instantiated trace = take 2 ?cs"
    by blast
  then have "provider g = ''openai'' \<and> attemptedProviders g = 2 \<and> fallbackUsed g
             \<and> instantiated trace = [''anthropic'', ''openai'']"
    by simp
  with run g show ?thesis
    unfolding generateWithProvider_def c by blast
qed

text \<open>
  A rejection with \<^verbatim>\<open>null\<close> ends the call: the candidate after it is never tried,
  though its call would have returned a text.
\<close>

lemma null_rejection_ends_call:
  "generateWithProvider ((\<lambda>_. None)(''OPENAI_API_KEY'' \<mapsto> ''sk-1''))
     (\<lambda>p. if p = ''anthropic'' then GenerateThrows JsNull
          else GenerateReturns
                 (Some \<lparr>payload_text = Some ''hello'', payload_model = None,
                        payload_usage = None\<rparr>))
     ''anthropic''
     \<lparr>requests = Finite 0, providers = [], errors = Finite 0, totalTokens = Finite 0\<rparr>
   = (Throws (''Cannot read properties of null (reading '' @ [CHR 0x27] @ ''message'' @
              [CHR 0x27] @ '')''),
      \<lparr>requests = Finite 0, providers = [], errors = Finite 0, totalTokens = Finite 0\<rparr>,
      [CreateAIProvider ''anthropic'', Generate ''anthropic''],
      [])"
proof -
  have c: "providersToTry ((\<lambda>_. None)(''OPENAI_API_KEY'' \<mapsto> ''sk-1'')) ''anthropic''
             = [''anthropic'', ''openai'', ''ollama'']"
    by (simp add: providersToTry_def isProviderConfigured_def ALL_PROVIDERS_def
          PROVIDER_ENV_VARS_def truthy_def)
  show ?thesis
    unfolding generateWithProvider_def c
    by (simp add: generate_loop.simps attempt_def caught_def errorMsgOf_def
          typeErrorReading_def Let_def)
qed

text \<open>
  C6. A candidate that is reached and whose generation call returns \<^verbatim>\<open>null\<close>, or a
  payload whose text is missing or empty, is a failed attempt: its line is added to
  the array of errors; no result the call returns is that candidate's or has an empty
  content; when it is not the last candidate the next one is instantiated, and is the
  one returned if its call returns a text; when it is the last the call fails; and
  the whole run is the run against a library whose call throws an \<^verbatim>\<open>Error\<close> with
  the same message.
\<close>

theorem empty_text_is_failure:
  assumes "i < length candidates"
      and "lib (candidates ! i) = GenerateReturns r"
      and "r = None \<or> (\<exists>res. r = Some res \<and>
                          (payload_text res = None \<or> payload_text res = Some []))"
      and "\<forall>j<i. fails (lib (candidates ! j))"
      and "generate_loop env lib candidates 0 [] stats [] = (out, stats', trace, errs)"
  shows "i < length errs
       \<and> errs ! i = candidates ! i @ '': Provider returned null or invalid response''
       \<and> (\<forall>g. out = Success g \<longrightarrow> i + 1 < attemptedProviders g \<and> content g \<noteq> [])
       \<and> (i + 1 < length candidates \<longrightarrow>
            take (i + 2) (instantiated trace) = take (i + 2) candidates)
       \<and> (i + 1 < length candidates \<and> succeeds (lib (candidates ! (i + 1))) \<longrightarrow>
            (\<exists>g. out = Success g \<and> provider g = candidates ! (i + 1)
                  \<and> attemptedProviders g = i + 2))
       \<and> (i + 1 = length candidates \<longrightarrow>
            out = Throws (''Failed after '' @ digits (length candidates) @
                          '' attempts. Last error: Provider returned null or invalid response''))
       \<and> generate_loop env lib candidates 0 [] stats [] =
           generate_loop env
             (lib(candidates ! i := GenerateThrows
                        (JsError (Some ''Provider returned null or invalid response'')
                                 ''Error: Provider returned null or invalid response'')))
             candidates 0 [] stats []"
proof -
  let ?p = "candidates ! i"
  let ?e = "JsError (Some ''Provider returned null or invalid response'')
                    ''Error: Provider returned null or invalid response''"
  have fi: "fails (lib ?p)"
    using assms(2,3) by (auto simp: fails_def succeeds_def rejects_nullish_def)
  have mi: "failure_msg (lib ?p) = ''Provider returned null or invalid response''"
    using assms(2) by (simp add: failure_msg_def)
  have li: "error_line lib ?p = ?p @ '': Provider returned null or invalid response''"
    using mi by (simp add: error_line_def)
  have a: "attempt lib ?p =
             (Caught ''Provider returned null or invalid response'',
              [CreateAIProvider ?p, Generate ?p])"
    using assms(2,3) by (auto simp: attempt_def)
  have "attempt lib c = attempt (lib(?p := GenerateThrows ?e)) c" for c
  proof (cases "c = ?p")
    case True
    have "attempt (lib(?p := GenerateThrows ?e)) ?p =
            (Caught ''Provider returned null or invalid response'',
             [CreateAIProvider ?p, Generate ?p])"
      by (simp add: attempt_def caught_def errorMsgOf_def)
    with a True show ?thesis by simp
  next
    case False
    then show ?thesis by (simp add: attempt_def)
  qed
  then have same: "generate_loop env lib candidates 0 [] stats [] =
                   generate_loop env (lib(?p := GenerateThrows ?e)) candidates 0 [] stats []"
    by (rule loop_attempt_cong)
  have rest: "i < length errs
       \<and> errs ! i = ?p @ '': Provider returned null or invalid response''
       \<and> (\<forall>g. out = Success g \<longrightarrow> i + 1 < attemptedProviders g \<and> content g \<noteq> [])
       \<and> (i + 1 < length candidates \<longrightarrow>
            take (i + 2) (instantiated trace) = take (i + 2) candidates)
       \<and> (i + 1 < length candidates \<and> succeeds (lib (candidates ! (i + 1))) \<longrightarrow>
            (\<exists>g. out = Success g \<and> provider g = candidates ! (i + 1)
                  \<and> attemptedProviders g = i + 2))
       \<and> (i + 1 = length candidates \<longrightarrow>
            out = Throws (''Failed after '' @ digits (length candidates) @
                          '' attempts. Last error: Provider returned null or invalid response''))"
  proof (cases rule: loop_cases [where cs = candidates and lib = lib])
    case Empty
    with assms(1) show ?thesis by simp
  next
    case Exhausted
    have e: "generate_loop env lib candidates 0 [] stats [] =
           (Throws (''Failed after '' @ digits (length candidates) @
                    '' attempts. Last error: '' @ failure_msg (lib (last candidates))),
            stats,
            concat (map (calls_of lib) candidates),
            map (error_line lib) candidates)"
      using Exhausted by (intro loop_all_fail) auto
    have o: "out = Throws (''Failed after '' @ digits (length candidates) @
                    '' attempts. Last error: '' @ failure_msg (lib (last candidates)))"
      and tr: "trace = concat (map (calls_of lib) candidates)"
      and er: "errs = map (error_line lib) candidates"
      using e assms(5) by simp_all
    have 1: "i < length errs \<and> errs ! i = ?p @ '': Provider returned null or invalid response''"
      using er assms(1) li by simp
    have 3: "instantiated trace = candidates"
      unfolding tr by (rule instantiated_attempts)
    have 4: "\<not> succeeds (lib (candidates ! (i + 1)))" if "i + 1 < length candidates"
      using that Exhausted(2) call_trichotomy [of "lib (candidates ! (i + 1))"] by auto
    have 5: "last candidates = ?p" if "i + 1 = length candidates"
    proof -
      have "length candidates - 1 = i" using that by simp
      then show ?thesis using Exhausted(1) by (simp add: last_conv_nth)
    qed
    show ?thesis
      using o 1 3 4 5 mi by auto
  next
    case (Decided d)
    have nfd: "\<not> fails (lib (candidates ! d))"
      using Decided(3) call_trichotomy [of "lib (candidates ! d)"] by auto
    have "d \<noteq> i" using nfd fi by auto
    moreover have "\<not> d < i" using nfd assms(4) by auto
    ultimately have id: "i < d" by simp
    have tk: "take (i + 2) (take (d + 1) candidates) = take (i + 2) candidates"
      using id by (simp add: min_def)
    have el: "i < length (map (error_line lib) (take d candidates))
              \<and> map (error_line lib) (take d candidates) ! i =
                  ?p @ '': Provider returned null or invalid response''"
      using id Decided(1) li by simp
    have nx: "d = i + 1" if "succeeds (lib (candidates ! (i + 1)))"
    proof (rule ccontr)
      assume "d \<noteq> i + 1"
      with id have "i + 1 < d" by simp
      then have "fails (lib (candidates ! (i + 1)))" using Decided(2) by simp
      with that show False
        using call_trichotomy [of "lib (candidates ! (i + 1))"] by auto
    qed
    have nl: "i + 1 \<noteq> length candidates"
      using id Decided(1) by simp
    show ?thesis
    proof (cases "succeeds (lib (candidates ! d))")
      case True
      obtain r' t where p: "lib (candidates ! d) = GenerateReturns (Some r')"
          "payload_text r' = Some t" "t \<noteq> []"
        using True by (rule succeeds_payload)
      have e: "generate_loop env lib candidates 0 [] stats [] =
           (Success
              \<lparr>content = t, provider = candidates ! d,
               result_model =
                 (case payload_model r' of
                    Some m \<Rightarrow> if m \<noteq> [] then m
                              else getModelForProvider env (candidates ! d)
                  | None \<Rightarrow> getModelForProvider env (candidates ! d)),
               usage = payload_usage r',
               attemptedProviders = d + 1,
               fallbackUsed = (d > 0)\<rparr>,
            updateUsageStats (payload_usage r') stats,
            concat (map (calls_of lib) (take (d + 1) candidates)),
            map (error_line lib) (take d candidates))"
        using Decided(1,2) p by (intro loop_first_success) auto
      have tr: "trace = concat (map (calls_of lib) (take (d + 1) candidates))"
        and er: "errs = map (error_line lib) (take d candidates)"
        using e assms(5) by simp_all
      have o: "out = Success
              \<lparr>content = t, provider = candidates ! d,
               result_model =
                 (case payload_model r' of
                    Some m \<Rightarrow> if m \<noteq> [] then m
                              else getModelForProvider env (candidates ! d)
                  | None \<Rightarrow> getModelForProvider env (candidates ! d)),
               usage = payload_usage r',
               attemptedProviders = d + 1,
               fallbackUsed = (d > 0)\<rparr>"
        using e assms(5) by simp
      have 3: "instantiated trace = take (d + 1) candidates"
        unfolding tr by (rule instantiated_attempts)
      show ?thesis
        using o er el 3 tk nx nl id p(3) by auto
    next
      case False
      with Decided(3) have n: "rejects_nullish (lib (candidates ! d))" by simp
      have e: "generate_loop env lib candidates 0 [] stats [] =
           (Throws (failure_msg (lib (candidates ! d))),
            stats,
            concat (map (calls_of lib) (take (d + 1) candidates)),
            map (error_line lib) (take d candidates))"
        using Decided(1,2) n by (intro loop_first_escape) auto
      have tr: "trace = concat (map (calls_of lib) (take (d + 1) candidates))"
        and er: "errs = map (error_line lib) (take d candidates)"
        and o: "out = Throws (failure_msg (lib (candidates ! d)))"
        using e assms(5) by simp_all
      have 3: "instantiated trace = take (d + 1) candidates"
        unfolding tr by (rule instantiated_attempts)
      have 4: "\<not> succeeds (lib (candidates ! (i + 1)))"
        using nx False by auto
      show ?thesis
        using o er el 3 tk 4 nl by auto
    qed
  qed
  from rest same show ?thesis by blast
qed

theorem empty_text_is_failure_witness:
  "\<exists>g stats' trace errs.
     generateWithProvider ((\<lambda>_. None)(''OPENAI_API_KEY'' \<mapsto> ''sk-1''))
       (\<lambda>p. if p = ''openai''
            then GenerateReturns
                   (Some \<lparr>payload_text = Some [], payload_model = None, payload_usage = None\<rparr>)
            else GenerateReturns
                   (Some \<lparr>payload_text = Some ''hello'', payload_model = None,
                          payload_usage = None\<rparr>))
       ''openai''
       \<lparr>requests = Finite 0, providers = [], errors = Finite 0, totalTokens = Finite 0\<rparr>
       = (Success g, stats', trace, errs)
     \<and> provider g = ''ollama'' \<and> attemptedProviders g = 2
     \<and> errs ! 0 = ''openai: Provider returned null or invalid response''
     \<and> take 2 (instantiated trace) = [''openai'', ''ollama'']"
proof -
  let ?env = "(\<lambda>_. None)(''OPENAI_API_KEY'' \<mapsto> ''sk-1'')"
  let ?empty = "\<lparr>payload_text = Some [], payload_model = None, payload_usage = None\<rparr>"
  let ?lib = "\<lambda>p. if p = ''openai'' then GenerateReturns (Some ?empty)
            else GenerateReturns
                   (Some \<lparr>payload_text = Some ''hello'', payload_model = None,
                          payload_usage = None\<rparr>)"
  let ?cs = "[''openai'', ''ollama'']"
  let ?stats = "\<lparr>requests = Finite 0, providers = [], errors = Finite 0, totalTokens = Finite 0\<rparr>"
  have c: "providersToTry ?env ''openai'' = ?cs"
    by (simp add: providersToTry_def isProviderConfigured_def ALL_PROVIDERS_def
          PROVIDER_ENV_VARS_def truthy_def)
  have h1: "(0::nat) < length ?cs"
    by simp
  have h2: "?lib (?cs ! 0) = GenerateReturns (Some ?empty)"
    by simp
  have h3: "Some ?empty = None \<or> (\<exists>res. Some ?empty = Some res \<and>
                          (payload_text res = None \<or> payload_text res = Some []))"
    by simp
  have h4: "\<forall>j<(0::nat). fails (?lib (?cs ! j))"
    by simp
  obtain out stats' trace errs
    where run: "generate_loop ?env ?lib ?cs 0 [] ?stats [] = (out, stats', trace, errs)"
    by (cases "generate_loop ?env ?lib ?cs 0 [] ?stats []") auto
  note t = empty_text_is_failure [where i = 0 and candidates = ?cs and lib = ?lib
         and r = "Some ?empty" and env = ?env and stats = ?stats, OF h1 h2 h3 h4 run]
  have n: "(0::nat) + 1 < length ?cs \<and> succeeds (?lib (?cs ! (0 + 1)))"
    by (simp add: succeeds_def)
  from t n obtain g where g: "out = Success g" "provider g = ?cs ! (0 + 1)"
      "attemptedProviders g = 0 + 2"
    by blast
  from t have e: "errs ! 0 = ?cs ! 0 @ '': Provider returned null or invalid response''"
    by blast
  from t n have i: "take (0 + 2) (instantiated trace) = take (0 + 2) ?cs"
    by blast
  have "provider g = ''ollama'' \<and> attemptedProviders g = 2
     \<and> errs ! 0 = ''openai: Provider returned null or invalid response''
     \<and> take 2 (instantiated trace) = [''openai'', ''ollama'']"
    using g(2,3) e i by (simp add: numeral_2_eq_2)
  with run g(1) show ?thesis
    unfolding generateWithProvider_def c by blast
qed

subsection \<open>Usage accounting of \<^verbatim>\<open>POST /api/generate\<close>\<close>







subsection \<open>Exhaustion\<close>

text \<open>
  C1. The claim asks that, when every candidate fails, the thrown message hold the
  \<open>provider: message\<close> pair of every attempt. Evaluated on a request for \<open>openai\<close>
  whose key is rejected, with no local Ollama listening: both candidates fail, the
  pairs are collected in the local array, and the message thrown holds the count and
  the last message only; it names neither provider.
\<close>

theorem exhaustion_message_last_only:
  "generateWithProvider ((\<lambda>_. None)(''OPENAI_API_KEY'' \<mapsto> ''sk-1''))
     (\<lambda>p. if p = ''openai''
          then GenerateThrows (JsError (Some ''401 Unauthorized'') ''Error: 401 Unauthorized'')
          else GenerateThrows (JsError (Some ''connect ECONNREFUSED 127.0.0.1:11434'')
                                       ''Error: connect ECONNREFUSED 127.0.0.1:11434''))
     ''openai''
     \<lparr>requests = Finite 1, providers = [], errors = Finite 0, totalTokens = Finite 0\<rparr>
   = (Throws ''Failed after 2 attempts. Last error: connect ECONNREFUSED 127.0.0.1:11434'',
      \<lparr>requests = Finite 1, providers = [], errors = Finite 0, totalTokens = Finite 0\<rparr>,
      [CreateAIProvider ''openai'', Generate ''openai'',
       CreateAIProvider ''ollama'', Generate ''ollama''],
      [''openai: 401 Unauthorized'', ''ollama: connect ECONNREFUSED 127.0.0.1:11434''])
   \<and> \<not> includes_str ''Failed after 2 attempts. Last error: connect ECONNREFUSED 127.0.0.1:11434''
                      ''openai''
   \<and> \<not> includes_str ''Failed after 2 attempts. Last error: connect ECONNREFUSED 127.0.0.1:11434''
                      ''ollama''
   \<and> \<not> includes_str ''Failed after 2 attempts. Last error: connect ECONNREFUSED 127.0.0.1:11434''
                      ''401 Unauthorized''"
proof -
  have c: "providersToTry ((\<lambda>_. None)(''OPENAI_API_KEY'' \<mapsto> ''sk-1'')) ''openai''
             = [''openai'', ''ollama'']"
    by (simp add: providersToTry_def isProviderConfigured_def ALL_PROVIDERS_def
          PROVIDER_ENV_VARS_def truthy_def)
  have d: "digits (Suc (Suc 0)) = ''2''"
    by code_simp
  show ?thesis
    unfolding generateWithProvider_def c
    by (simp add: generate_loop.simps attempt_def caught_def errorMsgOf_def d Let_def)
qed

end
